theory Spec2Isabelle
  imports Complex_Main "HOL-Library.Word"
begin

unbundle bit_operations_syntax

section \<open>JavaScript strings and byte chunks\<close>

text \<open>
  A network chunk is a \<^verbatim>\<open>Uint8Array\<close>: a list of bytes. A JavaScript string is a sequence
  of 16-bit UTF-16 code units; \<^verbatim>\<open>split\<close>, \<^verbatim>\<open>startsWith\<close>, \<^verbatim>\<open>slice\<close>, \<^verbatim>\<open>trim\<close>,
  \<^verbatim>\<open>===\<close> and \<^verbatim>\<open>+=\<close> all work on code units. ASCII literals of the source are written
  \<open>js ''...''\<close>, ASCII byte sequences \<open>bytes_of ''...''\<close>.
\<close>

type_synonym byte = "8 word"
type_synonym chunk = "byte list"
type_synonym code_unit = "16 word"
type_synonym jsstring = "code_unit list"

definition js :: "string \<Rightarrow> jsstring" where
  "js s = map of_char s"

definition bytes_of :: "string \<Rightarrow> chunk" where
  "bytes_of s = map of_char s"

definition nl :: code_unit where
  "nl = 0x0A"

definition nl_byte :: byte where
  "nl_byte = 0x0A"

subsection \<open>\<^verbatim>\<open>new TextDecoder()\<close> and \<^verbatim>\<open>decoder.decode(value)\<close>\<close>

text \<open>
  The platform's UTF-8 decoder (WHATWG Encoding): error mode "replacement" (a malformed
  sequence becomes U+FFFD, nothing is thrown), a leading byte-order mark is dropped. The
  source calls \<^verbatim>\<open>decoder.decode(value)\<close> without \<^verbatim>\<open>{ stream: true }\<close>, so every call
  starts from a fresh decoder state and flushes at the end of its input: a multi-byte
  character cut by the end of the chunk becomes U+FFFD.
\<close>

record utf8_state =
  needed :: nat
  seen :: nat
  code_point :: nat
  lower :: byte
  upper :: byte

definition utf8_init :: utf8_state where
  "utf8_init = \<lparr>needed = 0, seen = 0, code_point = 0, lower = 0x80, upper = 0xBF\<rparr>"

definition replacement :: nat where
  "replacement = 0xFFFD"

text \<open>A byte read while no sequence is open.\<close>

definition utf8_lead :: "byte \<Rightarrow> nat list \<times> utf8_state" where
  "utf8_lead b =
     (if b \<le> 0x7F then ([unat b], utf8_init)
      else if 0xC2 \<le> b \<and> b \<le> 0xDF then
        ([], \<lparr>needed = 1, seen = 0, code_point = unat (b AND 0x1F),
              lower = 0x80, upper = 0xBF\<rparr>)
      else if 0xE0 \<le> b \<and> b \<le> 0xEF then
        ([], \<lparr>needed = 2, seen = 0, code_point = unat (b AND 0x0F),
              lower = (if b = 0xE0 then 0xA0 else 0x80),
              upper = (if b = 0xED then 0x9F else 0xBF)\<rparr>)
      else if 0xF0 \<le> b \<and> b \<le> 0xF4 then
        ([], \<lparr>needed = 3, seen = 0, code_point = unat (b AND 0x07),
              lower = (if b = 0xF0 then 0x90 else 0x80),
              upper = (if b = 0xF4 then 0x8F else 0xBF)\<rparr>)
      else ([replacement], utf8_init))"

text \<open>
  One step of the decoder. A byte outside the expected continuation range ends the open
  sequence with U+FFFD and is then read again as a lead byte.
\<close>

definition utf8_handler :: "utf8_state \<Rightarrow> byte \<Rightarrow> nat list \<times> utf8_state" where
  "utf8_handler st b =
     (if needed st = 0 then utf8_lead b
      else if b < lower st \<or> upper st < b then
        (let (out, st') = utf8_lead b in (replacement # out, st'))
      else
        (let cp = code_point st * 64 + unat (b AND 0x3F); n = seen st + 1
         in if n \<noteq> needed st
            then ([], st\<lparr>code_point := cp, seen := n, lower := 0x80, upper := 0xBF\<rparr>)
            else ([cp], utf8_init)))"

fun utf8_run :: "utf8_state \<Rightarrow> byte list \<Rightarrow> nat list" where
  "utf8_run st [] = (if needed st \<noteq> 0 then [replacement] else [])"
| "utf8_run st (b # bs) = (let (out, st') = utf8_handler st b in out @ utf8_run st' bs)"

definition strip_bom :: "nat list \<Rightarrow> nat list" where
  "strip_bom cps = (case cps of [] \<Rightarrow> [] | c # rest \<Rightarrow> if c = 0xFEFF then rest else cps)"

text \<open>A code point as UTF-16 code units: one unit, or a surrogate pair above U+FFFF.\<close>

definition code_units :: "nat \<Rightarrow> jsstring" where
  "code_units cp =
     (if cp < 0x10000 then [word_of_nat cp]
      else [word_of_nat (0xD800 + (cp - 0x10000) div 0x400),
            word_of_nat (0xDC00 + (cp - 0x10000) mod 0x400)])"

definition utf16 :: "nat list \<Rightarrow> jsstring" where
  "utf16 cps = concat (map code_units cps)"

definition decode :: "chunk \<Rightarrow> jsstring" where
  "decode v = utf16 (strip_bom (utf8_run utf8_init v))"

definition starts_with_bom :: "chunk \<Rightarrow> bool" where
  "starts_with_bom v = (case utf8_run utf8_init v of [] \<Rightarrow> False | c # _ \<Rightarrow> c = 0xFEFF)"

subsection \<open>String operations used by the stream reader\<close>

text \<open>\<^verbatim>\<open>chunk.split('\n')\<close>: always at least one piece; the last piece is what follows the
  last line feed (empty when the text ends with one).\<close>

fun split_nl :: "jsstring \<Rightarrow> jsstring list" where
  "split_nl [] = [[]]"
| "split_nl (c # cs) =
     (if c = nl then [] # split_nl cs
      else (case split_nl cs of [] \<Rightarrow> [[c]] | l # ls \<Rightarrow> (c # l) # ls))"

definition startsWith :: "jsstring \<Rightarrow> jsstring \<Rightarrow> bool" where
  "startsWith s p = (take (length p) s = p)"

text \<open>\<^verbatim>\<open>line.slice(n)\<close>: the string from index \<open>n\<close> on.\<close>

definition slice_from :: "nat \<Rightarrow> jsstring \<Rightarrow> jsstring" where
  "slice_from n s = drop n s"

text \<open>\<^verbatim>\<open>String.prototype.trim\<close> removes ECMAScript WhiteSpace and LineTerminator code units
  from both ends.\<close>

definition is_space :: "code_unit \<Rightarrow> bool" where
  "is_space c =
     (c = 0x09 \<or> c = 0x0A \<or> c = 0x0B \<or> c = 0x0C \<or> c = 0x0D \<or> c = 0x20 \<or> c = 0xA0
      \<or> c = 0x1680 \<or> (0x2000 \<le> c \<and> c \<le> 0x200A) \<or> c = 0x2028 \<or> c = 0x2029
      \<or> c = 0x202F \<or> c = 0x205F \<or> c = 0x3000 \<or> c = 0xFEFF)"

definition trim :: "jsstring \<Rightarrow> jsstring" where
  "trim s = rev (dropWhile is_space (rev (dropWhile is_space s)))"

section \<open>\<^verbatim>\<open>streamRequest\<close>: the pump of the returned stream (api.ts)\<close>

text \<open>
  The \<^verbatim>\<open>for (const line of lines)\<close> loop of \<^verbatim>\<open>pump\<close>. The result is the list of strings
  passed to \<^verbatim>\<open>controller.enqueue\<close>, in order, and whether the loop left through
  \<^verbatim>\<open>controller.close(); return\<close> on a \<^verbatim>\<open>[DONE]\<close> line.
\<close>

fun process_lines :: "jsstring list \<Rightarrow> jsstring list \<times> bool" where
  "process_lines [] = ([], False)"
| "process_lines (line # rest) =
     (if startsWith line (js ''data: '') then
        (let data = trim (slice_from 6 line)
         in if data = js ''[DONE]'' then ([], True)
            else if data \<noteq> [] then
              (let (toks, closed) = process_lines rest in (data # toks, closed))
            else process_lines rest)
      else process_lines rest)"

text \<open>
  The byte source \<^verbatim>\<open>response.body.getReader()\<close>: the chunks its \<^verbatim>\<open>read()\<close> delivers and
  then how it ends, with \<^verbatim>\<open>done\<close> or by rejecting. The result of the pump is what it does
  to the stream it feeds: the strings it passes to \<^verbatim>\<open>controller.enqueue\<close>, in order, and
  whether the stream is then closed or errored (a rejected \<^verbatim>\<open>read()\<close> rejects the promise
  \<^verbatim>\<open>start\<close> returned, which errors the stream). A closed stream still hands every
  enqueued string to its reader; an errored stream drops the strings its reader has not
  taken yet, so how many the reader gets is decided where the stream is read. After
  \<^verbatim>\<open>[DONE]\<close> the pump returns without calling itself again, so the rest of the source is
  never read.
\<close>

datatype 'e source_end = Eof | ReadRejected 'e

datatype 'e stream_end = Closed | Errored 'e

fun pump :: "chunk list \<Rightarrow> 'e source_end \<Rightarrow> jsstring list \<times> 'e stream_end" where
  "pump [] Eof = ([], Closed)"
| "pump [] (ReadRejected e) = ([], Errored e)"
| "pump (v # vs) fin =
     (let chunk = decode v;
          lines = split_nl chunk;
          (toks, closed) = process_lines lines
      in if closed then (toks, Closed)
         else (let (toks', r) = pump vs fin in (toks @ toks', r)))"

definition tokens :: "chunk list \<Rightarrow> jsstring list" where
  "tokens vs = fst (pump vs (Eof :: unit source_end))"

section \<open>Errors and the HTTP response (types/index.ts, api.ts)\<close>

text \<open>
  What a \<^verbatim>\<open>catch\<close> can receive: the two error classes of \<^verbatim>\<open>types/index.ts\<close> (\<^verbatim>\<open>ApiError\<close>
  with its message and optional status; \<^verbatim>\<open>streamRequest\<close> never passes a code), any other
  \<^verbatim>\<open>Error\<close> of the platform (a \<^verbatim>\<open>TypeError\<close>, an \<^verbatim>\<open>AbortError\<close>), or a value that is not an
  \<^verbatim>\<open>Error\<close>.
\<close>

datatype js_error =
    ApiError jsstring "nat option"
  | NetworkError jsstring
  | OtherError jsstring
  | NotAnError

text \<open>
  A parsed JSON value, as \<^verbatim>\<open>response.json()\<close> resolves to. A number is a double of the
  platform; it is kept as the two things the code can observe of it: whether it is zero
  (the only falsy numbers JSON can give are \<open>0\<close> and \<open>-0\<close>), and the string the platform's
  \<^verbatim>\<open>Number::toString\<close> prints for it (\<open>1e+21\<close>, \<open>0.5\<close>, \<open>Infinity\<close>, ...).
\<close>

datatype json =
    JNull
  | JBool bool
  | JNum bool jsstring
  | JStr jsstring
  | JArr "json list"
  | JObj "(jsstring \<times> json) list"

text \<open>Decimal digits of a number, as a template literal or \<^verbatim>\<open>String(n)\<close> prints them.\<close>

fun dec :: "nat \<Rightarrow> jsstring" where
  "dec n = (if n < 10 then [0x30 + word_of_nat n]
            else dec (n div 10) @ [0x30 + word_of_nat (n mod 10)])"

declare dec.simps [simp del]

text \<open>
  \<^verbatim>\<open>ToString\<close>, which the \<^verbatim>\<open>Error\<close> constructor applies to its message argument. An
  array prints as its elements joined by commas, \<^verbatim>\<open>null\<close> elements as the empty string.
  An object parsed from JSON prints as \<open>[object Object]\<close> through the inherited
  \<^verbatim>\<open>toString\<close>; when it has a member of its own named \<open>toString\<close> (never a function in
  JSON) no conversion to a primitive is left and a \<^verbatim>\<open>TypeError\<close> is thrown.
\<close>

fun ToString :: "json \<Rightarrow> js_error + jsstring"
  and join_elements :: "json list \<Rightarrow> js_error + jsstring" where
  "ToString JNull = Inr (js ''null'')"
| "ToString (JBool b) = Inr (if b then js ''true'' else js ''false'')"
| "ToString (JNum z printed) = Inr printed"
| "ToString (JStr s) = Inr s"
| "ToString (JArr xs) = join_elements xs"
| "ToString (JObj kvs) =
     (if js ''toString'' \<in> set (map fst kvs)
      then Inl (OtherError (js ''Cannot convert object to primitive value''))
      else Inr (js ''[object Object]''))"
| "join_elements [] = Inr []"
| "join_elements (x # xs) =
     (case (if x = JNull then Inr [] else ToString x) of
        Inl e \<Rightarrow> Inl e
      | Inr s \<Rightarrow>
          if xs = [] then Inr s
          else (case join_elements xs of
                  Inl e \<Rightarrow> Inl e
                | Inr r \<Rightarrow> Inr (s @ js '','' @ r)))"

text \<open>Truthiness, as \<^verbatim>\<open>||\<close> tests it.\<close>

fun truthy :: "json \<Rightarrow> bool" where
  "truthy JNull = False"
| "truthy (JBool b) = b"
| "truthy (JNum z printed) = (\<not> z)"
| "truthy (JStr s) = (s \<noteq> [])"
| "truthy (JArr xs) = True"
| "truthy (JObj kvs) = True"

text \<open>
  \<^verbatim>\<open>errorData.detail\<close>: reading a property of \<^verbatim>\<open>null\<close> throws a \<^verbatim>\<open>TypeError\<close>; an object
  gives the member (the last one, where a key is repeated) or \<^verbatim>\<open>undefined\<close>; any other
  value has no such property.
\<close>

fun get_detail :: "json \<Rightarrow> js_error + json option" where
  "get_detail JNull = Inl (OtherError (js ''Cannot read properties of null''))"
| "get_detail (JObj kvs) = Inr (map_of (rev kvs) (js ''detail''))"
| "get_detail v = Inr None"

text \<open>
  The response \<^verbatim>\<open>fetch\<close> resolved with: \<open>json_body\<close> is what \<^verbatim>\<open>response.json()\<close> resolves to
  (\<open>None\<close> when it rejects), \<open>body\<close> is \<^verbatim>\<open>response.body\<close> (\<open>None\<close> for \<^verbatim>\<open>null\<close>), given as the
  chunks its reader delivers and how it ends. \<^verbatim>\<open>response.ok\<close> is the platform's: a status
  from 200 to 299.
\<close>

record response =
  status :: nat
  statusText :: jsstring
  json_body :: "json option"
  body :: "(chunk list \<times> js_error source_end) option"

definition ok :: "response \<Rightarrow> bool" where
  "ok r = (200 \<le> status r \<and> status r \<le> 299)"

datatype fetch_result = FetchRejected js_error | Responded response

type_synonym token_stream = "jsstring list \<times> js_error stream_end"

text \<open>The \<^verbatim>\<open>catch (error)\<close> block of \<^verbatim>\<open>streamRequest\<close>.\<close>

fun streamRequest_catch :: "js_error \<Rightarrow> js_error + token_stream" where
  "streamRequest_catch (ApiError m st) = Inl (ApiError m st)"
| "streamRequest_catch e = Inl (NetworkError (js ''Failed to establish streaming connection''))"

text \<open>The message \<^verbatim>\<open>errorData.detail || `HTTP ${response.status}: ${response.statusText}`\<close>
  as the \<^verbatim>\<open>ApiError\<close> constructor stores it, or the error the conversion throws.\<close>

definition failure_message :: "response \<Rightarrow> json option \<Rightarrow> js_error + jsstring" where
  "failure_message response detail =
     (case detail of
        Some d \<Rightarrow>
          if truthy d then ToString d
          else Inr (js ''HTTP '' @ dec (status response) @ js '': '' @ statusText response)
      | None \<Rightarrow> Inr (js ''HTTP '' @ dec (status response) @ js '': '' @ statusText response))"

definition streamRequest :: "fetch_result \<Rightarrow> js_error + token_stream" where
  "streamRequest fr =
     (case fr of
        FetchRejected e \<Rightarrow> streamRequest_catch e
      | Responded response \<Rightarrow>
          if \<not> ok response then
            (let errorData = (case json_body response of None \<Rightarrow> JObj [] | Some v \<Rightarrow> v)
             in case get_detail errorData of
                  Inl e \<Rightarrow> streamRequest_catch e
                | Inr detail \<Rightarrow>
                    (case failure_message response detail of
                       Inl e \<Rightarrow> streamRequest_catch e
                     | Inr m \<Rightarrow> streamRequest_catch (ApiError m (Some (status response)))))
          else
            (case body response of
               None \<Rightarrow>
                 streamRequest_catch
                   (ApiError (js ''No response body for streaming request'') None)
             | Some (chunks, fin) \<Rightarrow> Inr (pump chunks fin)))"

section \<open>The chat store and its actions (store/index.ts)\<close>

datatype role = User | Assistant | System

text \<open>\<^verbatim>\<open>Message\<close>; the optional \<^verbatim>\<open>tokens\<close> and \<^verbatim>\<open>metadata\<close> are never set by the sender.\<close>

record Message =
  id' :: jsstring
  role :: role
  content :: jsstring
  timestamp :: jsstring

text \<open>\<^verbatim>\<open>ChatStore\<close>: one global store, "chat state for current conversation".\<close>

record ChatStore =
  messages :: "Message list"
  isStreaming :: bool
  currentResponse :: jsstring
  isLoading :: bool
  error :: "jsstring option"
  inputValue :: jsstring
  isComposing :: bool
  selectedMessages :: "jsstring set"
  editingMessageId :: "jsstring option"

definition chatStore :: ChatStore where
  "chatStore =
     \<lparr>messages = [], isStreaming = False, currentResponse = [], isLoading = False,
      error = None, inputValue = [], isComposing = False, selectedMessages = {},
      editingMessageId = None\<rparr>"

definition addMessage :: "Message \<Rightarrow> ChatStore \<Rightarrow> ChatStore" where
  "addMessage m s = s\<lparr>messages := messages s @ [m]\<rparr>"

text \<open>\<^verbatim>\<open>chatStore.messages[chatStore.messages.length - 1]\<close> is \<^verbatim>\<open>undefined\<close> on an empty
  list, and the guard \<^verbatim>\<open>lastMessage && ...\<close> then skips the write.\<close>

definition updateLastMessage :: "jsstring \<Rightarrow> ChatStore \<Rightarrow> ChatStore" where
  "updateLastMessage c s =
     (if messages s \<noteq> [] \<and> role (last (messages s)) = Assistant
      then s\<lparr>messages := butlast (messages s) @ [(last (messages s))\<lparr>content := c\<rparr>]\<rparr>
      else s)"

definition appendToResponse :: "jsstring \<Rightarrow> ChatStore \<Rightarrow> ChatStore" where
  "appendToResponse token s =
     (let s1 = s\<lparr>currentResponse := currentResponse s @ token\<rparr>
      in if messages s1 \<noteq> [] \<and> role (last (messages s1)) = Assistant
         then s1\<lparr>messages :=
                   butlast (messages s1) @ [(last (messages s1))\<lparr>content := currentResponse s1\<rparr>]\<rparr>
         else s1)"

definition setStreaming :: "bool \<Rightarrow> ChatStore \<Rightarrow> ChatStore" where
  "setStreaming b s =
     (let s1 = s\<lparr>isStreaming := b\<rparr>
      in if \<not> b then s1\<lparr>currentResponse := []\<rparr> else s1)"

definition setLoading :: "bool \<Rightarrow> ChatStore \<Rightarrow> ChatStore" where
  "setLoading b s = s\<lparr>isLoading := b\<rparr>"

definition setError :: "jsstring option \<Rightarrow> ChatStore \<Rightarrow> ChatStore" where
  "setError e s = s\<lparr>error := e\<rparr>"

definition setInputValue :: "jsstring \<Rightarrow> ChatStore \<Rightarrow> ChatStore" where
  "setInputValue v s = s\<lparr>inputValue := v\<rparr>"

definition setComposing :: "bool \<Rightarrow> ChatStore \<Rightarrow> ChatStore" where
  "setComposing b s = s\<lparr>isComposing := b\<rparr>"

definition clearMessages :: "ChatStore \<Rightarrow> ChatStore" where
  "clearMessages s =
     s\<lparr>messages := [], currentResponse := [], isStreaming := False, error := None\<rparr>"

definition setMessages :: "Message list \<Rightarrow> ChatStore \<Rightarrow> ChatStore" where
  "setMessages ms s = s\<lparr>messages := ms\<rparr>"

section \<open>\<^verbatim>\<open>useSendMessage\<close> (queries.ts) and \<^verbatim>\<open>handleSubmit\<close> (ChatInput.tsx)\<close>

record SendMessageRequest =
  message :: jsstring
  model_name :: "jsstring option"
  temperature :: real
  max_tokens :: nat

text \<open>
  Every call the sender makes on a collaborator: the chat store's actions,
  \<^verbatim>\<open>api.sendMessage\<close> (the network request), \<^verbatim>\<open>queryClient.invalidateQueries\<close> and
  \<^verbatim>\<open>toast.error\<close>. The world is the chat store together with the calls made so far, oldest
  first.
\<close>

datatype call =
    SetStreaming bool
  | SetError "jsstring option"
  | AddMessage Message
  | AppendToResponse jsstring
  | SetInputValue jsstring
  | SendMessage jsstring SendMessageRequest
  | InvalidateQueries "jsstring list"
  | ToastError jsstring

record world =
  chat :: ChatStore
  calls :: "call list"

fun act :: "call \<Rightarrow> ChatStore \<Rightarrow> ChatStore" where
  "act (SetStreaming b) s = setStreaming b s"
| "act (SetError e) s = setError e s"
| "act (AddMessage m) s = addMessage m s"
| "act (AppendToResponse t) s = appendToResponse t s"
| "act (SetInputValue v) s = setInputValue v s"
| "act (SendMessage c d) s = s"
| "act (InvalidateQueries k) s = s"
| "act (ToastError m) s = s"

definition perform :: "call \<Rightarrow> world \<Rightarrow> world" where
  "perform c w = \<lparr>chat = act c (chat w), calls = calls w @ [c]\<rparr>"

text \<open>What \<^verbatim>\<open>crypto.randomUUID()\<close> and \<^verbatim>\<open>new Date().toISOString()\<close> return at the two
  places \<^verbatim>\<open>mutationFn\<close> calls them.\<close>

record env =
  user_uuid :: jsstring
  user_now :: jsstring
  assistant_uuid :: jsstring
  assistant_now :: jsstring

definition userMessage :: "env \<Rightarrow> SendMessageRequest \<Rightarrow> Message" where
  "userMessage en data =
     \<lparr>id' = user_uuid en, role = User, content = message data, timestamp = user_now en\<rparr>"

definition assistantMessage :: "env \<Rightarrow> Message" where
  "assistantMessage en =
     \<lparr>id' = assistant_uuid en, role = Assistant, content = [], timestamp = assistant_now en\<rparr>"

text \<open>\<^verbatim>\<open>mutationFn\<close> up to the \<^verbatim>\<open>try\<close>.\<close>

definition begin_send :: "env \<Rightarrow> SendMessageRequest \<Rightarrow> world \<Rightarrow> world" where
  "begin_send en data w =
     perform (AddMessage (assistantMessage en))
       (perform (AddMessage (userMessage en data))
         (perform (SetError None)
           (perform (SetStreaming True) w)))"

text \<open>The \<^verbatim>\<open>while (true)\<close> loop over \<^verbatim>\<open>reader.read()\<close>: one \<^verbatim>\<open>appendToResponse\<close> per token.\<close>

fun read_loop :: "jsstring list \<Rightarrow> world \<Rightarrow> world" where
  "read_loop [] w = w"
| "read_loop (v # vs) w = read_loop vs (perform (AppendToResponse v) w)"

text \<open>\<^verbatim>\<open>error instanceof Error ? error.message : 'Failed to send message'\<close>\<close>

fun error_message :: "js_error \<Rightarrow> jsstring" where
  "error_message (ApiError m st) = m"
| "error_message (NetworkError m) = m"
| "error_message (OtherError m) = m"
| "error_message NotAnError = js ''Failed to send message''"

text \<open>The \<^verbatim>\<open>catch (error)\<close> block of \<^verbatim>\<open>mutationFn\<close>.\<close>

definition send_catch :: "js_error \<Rightarrow> world \<Rightarrow> (js_error + unit) \<times> world" where
  "send_catch e w =
     (Inl e, perform (SetError (Some (error_message e))) (perform (SetStreaming False) w))"

text \<open>After the loop: \<^verbatim>\<open>setStreaming(false)\<close> and the two invalidations.\<close>

definition send_complete :: "jsstring \<Rightarrow> world \<Rightarrow> (js_error + unit) \<times> world" where
  "send_complete conversationId w =
     (Inr (),
      perform (InvalidateQueries [js ''conversations''])
        (perform (InvalidateQueries [js ''conversation'', conversationId])
          (perform (SetStreaming False) w)))"

text \<open>
  \<^verbatim>\<open>api.sendMessage\<close> is \<^verbatim>\<open>streamRequest\<close> on the conversation's endpoint; \<open>fr\<close> is what
  \<^verbatim>\<open>fetch\<close> answers to that request. When the stream errors, the loop has applied the
  first \<open>k\<close> of the enqueued tokens (all of them when \<open>k\<close> is larger): the ones its reader
  had taken by then; the others were dropped with the stream's queue. The result of
  \<^verbatim>\<open>mutationFn\<close> is \<open>Inr ()\<close> when its promise resolves and \<open>Inl e\<close> when it rejects with
  \<open>e\<close>.
\<close>

definition mutationFn ::
  "env \<Rightarrow> jsstring \<Rightarrow> SendMessageRequest \<Rightarrow> fetch_result \<Rightarrow> nat \<Rightarrow> world
     \<Rightarrow> (js_error + unit) \<times> world" where
  "mutationFn en conversationId data fr k w =
     (let w1 = perform (SendMessage conversationId data) (begin_send en data w)
      in case streamRequest fr of
           Inl e \<Rightarrow> send_catch e w1
         | Inr (toks, fin) \<Rightarrow>
             (case fin of
                Closed \<Rightarrow> send_complete conversationId (read_loop toks w1)
              | Errored e \<Rightarrow> send_catch e (read_loop (take k toks) w1)))"

text \<open>
  The default \<^verbatim>\<open>mutations.retry\<close> of the query client (main.tsx), which \<^verbatim>\<open>useSendMessage\<close>
  does not override. \<^verbatim>\<open>error?.status\<close> is the status of an \<^verbatim>\<open>ApiError\<close> and \<^verbatim>\<open>undefined\<close>
  for everything else.
\<close>

fun retry :: "nat \<Rightarrow> js_error \<Rightarrow> bool" where
  "retry failureCount (ApiError m st) =
     (if st = Some 404 \<or> st = Some 401 then False else failureCount < 2)"
| "retry failureCount e = (failureCount < 2)"

text \<open>
  What the environment supplies to one run of \<^verbatim>\<open>mutationFn\<close>: the identifiers and
  times, the answer of \<^verbatim>\<open>fetch\<close>, and how many tokens the reader takes from a stream that
  errors.
\<close>

record attempt =
  attempt_env :: env
  answer :: fetch_result
  taken :: nat

text \<open>
  \<^verbatim>\<open>sendMessage.mutateAsync\<close>: the query client runs \<^verbatim>\<open>mutationFn\<close> and, when it rejects,
  asks \<^verbatim>\<open>retry\<close> with the number of failures so far; it runs \<^verbatim>\<open>mutationFn\<close> again (after a
  delay) or rejects with the last error. \<open>att n\<close> is what the environment supplies to the
  run after \<open>n\<close> failures. The browser is taken to be online, so that no run is paused,
  and nothing else touches the store during the delay.
\<close>

function mutateAsync ::
  "(nat \<Rightarrow> attempt) \<Rightarrow> jsstring \<Rightarrow> SendMessageRequest \<Rightarrow> nat \<Rightarrow> world
     \<Rightarrow> (js_error + unit) \<times> world" where
  "mutateAsync att conversationId data failureCount w =
     (case mutationFn (attempt_env (att failureCount)) conversationId data
             (answer (att failureCount)) (taken (att failureCount)) w of
        (Inr u, w') \<Rightarrow> (Inr u, w')
      | (Inl e, w') \<Rightarrow>
          if retry failureCount e
          then mutateAsync att conversationId data (Suc failureCount) w'
          else (Inl e, w'))"
  by pat_completeness auto
termination
proof (relation "measure (\<lambda>(att, conversationId, data, failureCount, w). 2 - failureCount)")
  show "wf (measure (\<lambda>(att, conversationId, data, failureCount, w). 2 - failureCount))"
    by simp
next
  fix att :: "nat \<Rightarrow> attempt" and conversationId data failureCount w x1 x2 a
  assume "retry failureCount a"
  then have "failureCount < 2"
    by (cases a) (simp_all split: if_splits)
  then show "((att, conversationId, data, Suc failureCount, x2),
              (att, conversationId, data, failureCount, w))
             \<in> measure (\<lambda>(att, conversationId, data, failureCount, w). 2 - failureCount)"
    by simp
qed

declare mutateAsync.simps [simp del]

text \<open>The part of \<^verbatim>\<open>AppStore\<close> that \<^verbatim>\<open>ChatInput\<close> reads.\<close>

record AppStore =
  currentConversationId :: "jsstring option"
  currentModelName :: "jsstring option"

text \<open>
  \<^verbatim>\<open>handleSubmit\<close>. The component reads \<^verbatim>\<open>inputValue\<close> and \<^verbatim>\<open>isStreaming\<close> from
  \<^verbatim>\<open>useChatStore()\<close> and the conversation and model from \<^verbatim>\<open>useAppStore()\<close> when it renders,
  and \<^verbatim>\<open>useCallback\<close> keeps them in the handler: \<open>snap\<close> and \<open>app\<close> are these snapshots of
  the last render, which the store \<open>chat w\<close> may have left behind since.
  \<^verbatim>\<open>!currentConversationId\<close> holds for \<^verbatim>\<open>undefined\<close> and for the empty string. The promise
  \<^verbatim>\<open>handleSubmit\<close> returns always resolves: a failed send is caught and shown as a toast.
  Resetting the height of the textarea touches only the page and is left out.
\<close>

definition handleSubmit ::
  "ChatStore \<Rightarrow> AppStore \<Rightarrow> (nat \<Rightarrow> attempt) \<Rightarrow> world \<Rightarrow> (js_error + unit) \<times> world" where
  "handleSubmit snap app att w =
     (if trim (inputValue snap) = [] \<or> isStreaming snap
         \<or> currentConversationId app = None \<or> currentConversationId app = Some []
      then (Inr (), w)
      else
        (let msg = trim (inputValue snap);
             w1 = perform (SetInputValue []) w
         in case mutateAsync att (the (currentConversationId app))
                   \<lparr>message = msg, model_name = currentModelName app,
                    temperature = 3 / 10, max_tokens = 2048\<rparr> 0 w1 of
              (Inr u, w2) \<Rightarrow> (Inr (), w2)
            | (Inl e, w2) \<Rightarrow>
                (Inr (),
                 perform (SetInputValue msg)
                   (perform (ToastError (js ''Failed to send message'')) w2))))"

section \<open>Concrete inputs\<close>

text \<open>The world before anything has happened, and the inputs used for the examples.\<close>

definition initial_world :: world where
  "initial_world = \<lparr>chat = chatStore, calls = []\<rparr>"

definition example_env :: env where
  "example_env =
     \<lparr>user_uuid = js ''u-1'', user_now = js ''t-1'',
      assistant_uuid = js ''a-1'', assistant_now = js ''t-2''\<rparr>"

definition example_request :: SendMessageRequest where
  "example_request =
     \<lparr>message = js ''hi'', model_name = None, temperature = 3 / 10, max_tokens = 2048\<rparr>"

definition ok_response :: "chunk list \<Rightarrow> js_error source_end \<Rightarrow> fetch_result" where
  "ok_response chunks fin =
     Responded \<lparr>status = 200, statusText = js ''OK'', json_body = None,
                body = Some (chunks, fin)\<rparr>"

definition error_response :: "json option \<Rightarrow> fetch_result" where
  "error_response j =
     Responded \<lparr>status = 500, statusText = js ''Internal Server Error'', json_body = j,
                body = None\<rparr>"

text \<open>Two sends in flight at once, for the conversations \<open>A\<close> and \<open>B\<close>: both have
  run up to their \<^verbatim>\<open>await api.sendMessage(...)\<close>.\<close>

definition second_env :: env where
  "second_env =
     \<lparr>user_uuid = js ''u-2'', user_now = js ''t-3'',
      assistant_uuid = js ''a-2'', assistant_now = js ''t-4''\<rparr>"

definition two_sessions :: world where
  "two_sessions =
     perform (SendMessage (js ''B'') example_request)
       (begin_send second_env example_request
         (perform (SendMessage (js ''A'') example_request)
           (begin_send example_env example_request initial_world)))"

section \<open>Chunk boundaries at line ends\<close>

text \<open>
  A chunk ends a line when it is empty or its last byte is the line feed. A chunk
  sequence is line-aligned when every chunk ends a line and no chunk after the first
  begins with a byte-order mark (which the decoder would drop at the start of a call).
\<close>

definition ends_line :: "chunk \<Rightarrow> bool" where
  "ends_line c = (c = [] \<or> last c = nl_byte)"

definition line_aligned :: "chunk list \<Rightarrow> bool" where
  "line_aligned cs = (list_all ends_line cs \<and> list_all (\<lambda>c. \<not> starts_with_bom c) (tl cs))"

text \<open>Example A of the specification.\<close>

definition example_A :: "chunk list" where
  "example_A =
     [bytes_of ''data: Hel'', bytes_of ''lo\<newline>data: '', bytes_of '' World\<newline>data: [DONE]\<newline>'']"

text \<open>A server that answers every request with status 500 and the error body of
  Example B; the identifiers of the run after \<open>n\<close> failures end in \<open>n\<close>.\<close>

definition always_failing :: "nat \<Rightarrow> attempt" where
  "always_failing n =
     \<lparr>attempt_env =
        \<lparr>user_uuid = js ''u-'' @ dec n, user_now = js ''t-'' @ dec n,
         assistant_uuid = js ''a-'' @ dec n, assistant_now = js ''t-'' @ dec n\<rparr>,
      answer = error_response (Some (JObj [(js ''detail'', JStr (js ''model not loaded''))])),
      taken = 0\<rparr>"

text \<open>
  The conversation \<open>A\<close> is current and \<open>hi\<close> has been typed. The first submit has
  emptied the input box and its send is in flight: \<^verbatim>\<open>mutationFn\<close> has run up to its
  \<^verbatim>\<open>await api.sendMessage(...)\<close>. Two snapshots a later submit can hold: the one of the
  render before the first submit (the input box holds \<open>hi\<close>, the indicator is off), and
  the one of a render during the send with new text typed in.
\<close>

definition current_A :: AppStore where
  "current_A = \<lparr>currentConversationId = Some (js ''A''), currentModelName = None\<rparr>"

definition typed_hi :: world where
  "typed_hi = perform (SetInputValue (js ''hi'')) initial_world"

definition first_send_in_flight :: world where
  "first_send_in_flight =
     perform (SendMessage (js ''A'') example_request)
       (begin_send example_env example_request (perform (SetInputValue []) typed_hi))"

definition stale_snapshot :: ChatStore where
  "stale_snapshot = chat typed_hi"

definition streaming_snapshot :: ChatStore where
  "streaming_snapshot = (chat first_send_in_flight)\<lparr>inputValue := js ''again''\<rparr>"

text \<open>A server that answers every request with status 200 and an empty stream.\<close>

definition empty_answers :: "nat \<Rightarrow> attempt" where
  "empty_answers n = \<lparr>attempt_env = second_env, answer = ok_response [] Eof, taken = 0\<rparr>"



lemmas evaluate =
  decode_def utf8_handler_def utf8_lead_def utf8_init_def strip_bom_def utf16_def
  code_units_def bytes_of_def js_def startsWith_def slice_from_def trim_def is_space_def nl_def

section \<open>The store actions, one by one\<close>

lemma chat_perform [simp]: "chat (perform c w) = act c (chat w)"
  by (simp add: perform_def)

lemma calls_perform [simp]: "calls (perform c w) = calls w @ [c]"
  by (simp add: perform_def)

lemma setStreaming_False:
  "setStreaming False s = s\<lparr>isStreaming := False, currentResponse := []\<rparr>"
  by (simp add: setStreaming_def)

lemma setStreaming_True: "setStreaming True s = s\<lparr>isStreaming := True\<rparr>"
  by (simp add: setStreaming_def)

lemma appendToResponse_last_assistant:
  assumes "messages s = ms @ [m]" and "role m = Assistant"
  shows "appendToResponse t s =
           s\<lparr>currentResponse := currentResponse s @ t,
             messages := ms @ [m\<lparr>content := currentResponse s @ t\<rparr>]\<rparr>"
  using assms by (simp add: appendToResponse_def Let_def)

lemma chat_begin_send:
  "chat (begin_send en data w) =
     (chat w)\<lparr>isStreaming := True, error := None,
              messages := messages (chat w) @ [userMessage en data, assistantMessage en]\<rparr>"
  by (simp add: begin_send_def setStreaming_True setError_def addMessage_def)

lemma calls_begin_send:
  "calls (begin_send en data w) =
     calls w @ [SetStreaming True, SetError None, AddMessage (userMessage en data),
                AddMessage (assistantMessage en)]"
  by (simp add: begin_send_def)


text \<open>
  The loop on a store whose last message is an assistant message: the buffer grows by
  the tokens in order, and the last message holds the whole buffer as soon as one token
  has been applied.
\<close>

lemma chat_read_loop:
  assumes "messages (chat w) = ms @ [m]" and "role m = Assistant"
  shows "chat (read_loop toks w) =
           (chat w)\<lparr>currentResponse := currentResponse (chat w) @ concat toks,
                    messages := ms @ [m\<lparr>content := (if toks = [] then content m
                                          else currentResponse (chat w) @ concat toks)\<rparr>]\<rparr>"
  using assms
proof (induction toks arbitrary: w m)
  case Nil
  then show ?case by simp
next
  case (Cons t toks)
  let ?w = "perform (AppendToResponse t) w"
  let ?m = "m\<lparr>content := currentResponse (chat w) @ t\<rparr>"
  have step: "chat ?w =
      (chat w)\<lparr>currentResponse := currentResponse (chat w) @ t, messages := ms @ [?m]\<rparr>"
    using Cons.prems by (simp add: appendToResponse_last_assistant)
  have ms: "messages (chat ?w) = ms @ [?m]"
    by (simp only: step) simp
  have rl: "role ?m = Assistant"
    using Cons.prems by simp
  have cr: "currentResponse (chat ?w) = currentResponse (chat w) @ t"
    by (simp only: step) simp
  have "chat (read_loop (t # toks) w) = chat (read_loop toks ?w)"
    by simp
  also have "\<dots> =
      (chat ?w)\<lparr>currentResponse := currentResponse (chat ?w) @ concat toks,
                messages := ms @ [?m\<lparr>content := (if toks = [] then content ?m
                               else currentResponse (chat ?w) @ concat toks)\<rparr>]\<rparr>"
    by (rule Cons.IH [OF ms rl])
  also have "\<dots> =
      (chat w)\<lparr>currentResponse := currentResponse (chat w) @ concat (t # toks),
               messages := ms @ [m\<lparr>content := (if t # toks = [] then content m
                                     else currentResponse (chat w) @ concat (t # toks))\<rparr>]\<rparr>"
    by (simp only: cr step) simp
  finally show ?case .
qed

lemma messages_after_tokens:
  assumes "currentResponse (chat w) = []"
  shows "messages (chat (read_loop toks (perform (SendMessage c data) (begin_send en data w)))) =
           messages (chat w) @ [userMessage en data, (assistantMessage en)\<lparr>content := concat toks\<rparr>]"
proof -
  let ?w1 = "perform (SendMessage c data) (begin_send en data w)"
  have m: "messages (chat ?w1) = (messages (chat w) @ [userMessage en data]) @ [assistantMessage en]"
    by (simp add: chat_begin_send)
  have r: "role (assistantMessage en) = Assistant"
    by (simp add: assistantMessage_def)
  have c: "content (assistantMessage en) = []"
    by (simp add: assistantMessage_def)
  show ?thesis
    using assms by (simp add: chat_read_loop [OF m r] c chat_begin_send)
qed

lemma buffer_after_tokens:
  "currentResponse (chat (read_loop toks (perform (SendMessage c data) (begin_send en data w)))) =
     currentResponse (chat w) @ concat toks"
proof -
  let ?w1 = "perform (SendMessage c data) (begin_send en data w)"
  have m: "messages (chat ?w1) = (messages (chat w) @ [userMessage en data]) @ [assistantMessage en]"
    by (simp add: chat_begin_send)
  have r: "role (assistantMessage en) = Assistant"
    by (simp add: assistantMessage_def)
  show ?thesis
    by (simp add: chat_read_loop [OF m r] chat_begin_send)
qed

lemma chat_send_catch:
  "chat (snd (send_catch e w)) =
     (chat w)\<lparr>isStreaming := False, currentResponse := [], error := Some (error_message e)\<rparr>"
  by (simp add: send_catch_def setStreaming_False setError_def)

lemma chat_send_complete:
  "chat (snd (send_complete c w)) = (chat w)\<lparr>isStreaming := False, currentResponse := []\<rparr>"
  by (simp add: send_complete_def setStreaming_False)

lemma send_resets_buffer:
  "currentResponse (chat (snd (mutationFn en c data fr k w))) = []"
  by (simp add: mutationFn_def Let_def chat_send_catch chat_send_complete
           split: sum.splits prod.splits stream_end.splits)

lemma mutateAsync_resolved:
  assumes "mutationFn (attempt_env (att n)) c data (answer (att n)) (taken (att n)) w = (Inr u, w')"
  shows "mutateAsync att c data n w = (Inr u, w')"
  using assms by (simp add: mutateAsync.simps [of att c data n w])

text \<open>A run that resolves is the whole send: only a run that rejects is run again.\<close>

lemma resolved_run_is_the_send:
  assumes "fst (mutationFn (attempt_env (att 0)) c data (answer (att 0)) (taken (att 0)) w)
             = Inr u"
  shows "mutateAsync att c data 0 w =
           mutationFn (attempt_env (att 0)) c data (answer (att 0)) (taken (att 0)) w"
proof -
  obtain w' where
    "mutationFn (attempt_env (att 0)) c data (answer (att 0)) (taken (att 0)) w = (Inr u, w')"
    using assms
    by (cases "mutationFn (attempt_env (att 0)) c data (answer (att 0)) (taken (att 0)) w") simp
  then show ?thesis
    by (simp add: mutateAsync_resolved [where att = att and n = 0])
qed

lemma mutateAsync_given_up:
  assumes "mutationFn (attempt_env (att n)) c data (answer (att n)) (taken (att n)) w = (Inl e, w')"
    and "\<not> retry n e"
  shows "mutateAsync att c data n w = (Inl e, w')"
  using assms by (simp add: mutateAsync.simps [of att c data n w])

lemma mutateAsync_retried:
  assumes "mutationFn (attempt_env (att n)) c data (answer (att n)) (taken (att n)) w = (Inl e, w')"
    and "retry n e"
  shows "mutateAsync att c data n w = mutateAsync att c data (Suc n) w'"
  using assms by (simp add: mutateAsync.simps [of att c data n w])

lemma mutateAsync_resets_buffer:
  "currentResponse (chat (snd (mutateAsync att c data n w))) = []"
proof (induction att c data n w rule: mutateAsync.induct)
  case (1 att c data n w)
  obtain r w' where m:
    "mutationFn (attempt_env (att n)) c data (answer (att n)) (taken (att n)) w = (r, w')"
    by (cases "mutationFn (attempt_env (att n)) c data (answer (att n)) (taken (att n)) w")
  have b: "currentResponse (chat w') = []"
    using send_resets_buffer [of "attempt_env (att n)" c data "answer (att n)" "taken (att n)" w] m
    by simp
  show ?case
  proof (cases r)
    case (Inr u)
    then show ?thesis
      using m b by (simp add: mutateAsync_resolved)
  next
    case (Inl e)
    show ?thesis
    proof (cases "retry n e")
      case True
      have "currentResponse (chat (snd (mutateAsync att c data (Suc n) w'))) = []"
        using "1.IH" m Inl True by simp
      then show ?thesis
        using m Inl True by (simp add: mutateAsync_retried)
    next
      case False
      then show ?thesis
        using m Inl b by (simp add: mutateAsync_given_up)
    qed
  qed
qed

lemma submit_keeps_buffer_empty:
  assumes "currentResponse (chat w) = []"
  shows "currentResponse (chat (snd (handleSubmit snap app att w))) = []"
proof -
  let ?r = "mutateAsync att (the (currentConversationId app))
              \<lparr>message = trim (inputValue snap), model_name = currentModelName app,
               temperature = 3 / 10, max_tokens = 2048\<rparr> 0 (perform (SetInputValue []) w)"
  have "currentResponse (chat (snd ?r)) = []"
    by (rule mutateAsync_resets_buffer)
  then show ?thesis
    using assms
    by (cases ?r) (auto simp: handleSubmit_def Let_def setInputValue_def split: sum.splits)
qed


section \<open>Token accumulation\<close>




section \<open>The buffer after a terminal state\<close>

text \<open>
  C10. \<^verbatim>\<open>setStreaming(false)\<close> empties \<open>currentResponse\<close> and leaves the messages as they
  are. Both ways out of a send call it: the completion path and the catch block each
  leave the messages they found, with an empty buffer, and so the buffer is empty after
  every send while the assistant message keeps the content last written to it.
\<close>

theorem setStreaming_false_resets_buffer:
  "currentResponse (setStreaming False s) = []
   \<and> messages (setStreaming False s) = messages s
   \<and> currentResponse (chat (snd (send_complete c w))) = []
   \<and> messages (chat (snd (send_complete c w))) = messages (chat w)
   \<and> currentResponse (chat (snd (send_catch e w))) = []
   \<and> messages (chat (snd (send_catch e w))) = messages (chat w)
   \<and> count_list (calls (snd (send_complete c w))) (SetStreaming False)
       = count_list (calls w) (SetStreaming False) + 1
   \<and> count_list (calls (snd (send_catch e w))) (SetStreaming False)
       = count_list (calls w) (SetStreaming False) + 1
   \<and> currentResponse (chat (snd (mutationFn en c data fr k w))) = []"
  by (simp add: setStreaming_False chat_send_catch chat_send_complete send_resets_buffer)
     (simp add: send_catch_def send_complete_def)

section \<open>The three ways out of a run\<close>



lemma mutationFn_stream_closed:
  assumes "streamRequest fr = Inr (toks, Closed)"
  shows "mutationFn en c data fr k w =
           send_complete c (read_loop toks (perform (SendMessage c data) (begin_send en data w)))"
  using assms by (simp add: mutationFn_def)







section \<open>Failure of a send\<close>





section \<open>The byte source ends without a sentinel\<close>

lemma pump_Eof_closed: "snd (pump chunks Eof) = Closed"
  by (induction chunks) (auto simp: Let_def split: prod.splits)

lemma pump_Cons:
  "pump (v # vs) fin =
     (if snd (process_lines (split_nl (decode v)))
      then (fst (process_lines (split_nl (decode v))), Closed)
      else (fst (process_lines (split_nl (decode v))) @ fst (pump vs fin), snd (pump vs fin)))"
  by (simp add: Let_def split: prod.splits)

lemma tokens_Nil: "tokens [] = []"
  by (simp add: tokens_def)

lemma tokens_Cons:
  "tokens (v # vs) =
     (if snd (process_lines (split_nl (decode v)))
      then fst (process_lines (split_nl (decode v)))
      else fst (process_lines (split_nl (decode v))) @ tokens vs)"
  by (simp add: tokens_def pump_Cons del: pump.simps)

lemma pump_Eof_tokens: "pump chunks Eof = (tokens chunks, Closed)"
proof -
  have "fst (pump chunks Eof) = tokens chunks"
    by (induction chunks) (simp_all add: pump_Cons tokens_Cons tokens_Nil del: pump.simps(3))
  then show ?thesis
    by (metis pump_Eof_closed prod.collapse)
qed

text \<open>
  C8. When the reader of the response body reports \<^verbatim>\<open>done\<close>, with or without a
  \<^verbatim>\<open>[DONE]\<close> line before it, the pump closes the stream it feeds: the output ends, it
  does not error. The send then resolves: the indicator is off, no error is recorded,
  and the placeholder holds every token that was emitted. (The run that resolves is the
  whole send, \<open>resolved_run_is_the_send\<close>; a closed stream hands all its tokens to the
  reader, so the number \<open>k\<close> plays no part.)
\<close>

theorem source_end_completes_session:
  assumes "ok r" and "body r = Some (chunks, Eof)" and "currentResponse (chat w) = []"
  shows "streamRequest (Responded r) = Inr (tokens chunks, Closed)
         \<and> fst (mutationFn en c data (Responded r) k w) = Inr ()
         \<and> \<not> isStreaming (chat (snd (mutationFn en c data (Responded r) k w)))
         \<and> error (chat (snd (mutationFn en c data (Responded r) k w))) = None
         \<and> messages (chat (snd (mutationFn en c data (Responded r) k w))) =
             messages (chat w)
             @ [userMessage en data, (assistantMessage en)\<lparr>content := concat (tokens chunks)\<rparr>]"
proof -
  let ?w2 = "read_loop (tokens chunks) (perform (SendMessage c data) (begin_send en data w))"
  have s: "streamRequest (Responded r) = Inr (tokens chunks, Closed)"
    using assms(1,2) by (simp add: streamRequest_def pump_Eof_tokens)
  have run: "mutationFn en c data (Responded r) k w = send_complete c ?w2"
    by (rule mutationFn_stream_closed [OF s])
  have m: "messages (chat ?w2) =
      messages (chat w)
      @ [userMessage en data, (assistantMessage en)\<lparr>content := concat (tokens chunks)\<rparr>]"
    by (rule messages_after_tokens [OF assms(3)])
  have e: "error (chat ?w2) = None"
  proof -
    have 1: "messages (chat (perform (SendMessage c data) (begin_send en data w)))
               = (messages (chat w) @ [userMessage en data]) @ [assistantMessage en]"
      by (simp add: chat_begin_send)
    have 2: "role (assistantMessage en) = Assistant"
      by (simp add: assistantMessage_def)
    show ?thesis
      by (simp add: chat_read_loop [OF 1 2] chat_begin_send)
  qed
  have f: "fst (send_complete c ?w2) = Inr ()"
    by (simp add: send_complete_def)
  show ?thesis
    using s f e m by (simp only: run chat_send_complete) simp
qed

theorem source_end_completes_session_witness:
  "ok \<lparr>status = 200, statusText = js ''OK'', json_body = None,
       body = Some ([bytes_of ''data: foo\<newline>''], Eof)\<rparr>
   \<and> currentResponse (chat initial_world) = []
   \<and> streamRequest (ok_response [bytes_of ''data: foo\<newline>''] Eof) = Inr ([js ''foo''], Closed)
   \<and> fst (mutationFn example_env (js ''A'') example_request
            (ok_response [bytes_of ''data: foo\<newline>''] Eof) 0 initial_world) = Inr ()
   \<and> error (chat (snd (mutationFn example_env (js ''A'') example_request
            (ok_response [bytes_of ''data: foo\<newline>''] Eof) 0 initial_world))) = None
   \<and> messages (chat (snd (mutationFn example_env (js ''A'') example_request
            (ok_response [bytes_of ''data: foo\<newline>''] Eof) 0 initial_world))) =
       [userMessage example_env example_request,
        (assistantMessage example_env)\<lparr>content := js ''foo''\<rparr>]"
proof -
  let ?r = "\<lparr>status = 200, statusText = js ''OK'', json_body = None,
             body = Some ([bytes_of ''data: foo\<newline>''], Eof)\<rparr>"
  have h1: "ok ?r"
    by (simp add: ok_def)
  have h2: "body ?r = Some ([bytes_of ''data: foo\<newline>''], Eof)"
    by simp
  have h3: "currentResponse (chat initial_world) = []"
    by (simp add: initial_world_def chatStore_def)
  have t: "tokens [bytes_of ''data: foo\<newline>''] = [js ''foo'']"
    by (simp add: tokens_def evaluate)
  show ?thesis
    using source_end_completes_session
        [OF h1 h2 h3, where en = example_env and c = "js ''A''" and data = example_request
           and k = 0]
      h1 h3
    by (simp only: t ok_response_def) (simp add: initial_world_def chatStore_def)
qed

section \<open>The checks before a send\<close>

text \<open>
  C6, as the code has it. \<^verbatim>\<open>handleSubmit\<close> tests the values the component captured at
  its last render. When, in that snapshot, the trimmed input is empty, the streaming
  indicator is set (a send is in flight, for whichever conversation), or no conversation
  is current, it returns at once: the world is as before, so no message was appended
  and no request was made. It returns normally: no error reaches the caller and no
  toast is shown. \<^verbatim>\<open>mutationFn\<close> itself checks nothing.
\<close>

theorem rejected_submit_is_silent_noop:
  assumes "trim (inputValue snap) = [] \<or> isStreaming snap
           \<or> currentConversationId app = None \<or> currentConversationId app = Some []"
  shows "handleSubmit snap app att w = (Inr (), w)"
  using assms by (simp add: handleSubmit_def)

text \<open>The streaming guard alone: the input is not empty and a conversation is current.\<close>

theorem rejected_submit_is_silent_noop_witness:
  "trim (inputValue streaming_snapshot) \<noteq> []
   \<and> currentConversationId current_A = Some (js ''A'')
   \<and> (trim (inputValue streaming_snapshot) = [] \<or> isStreaming streaming_snapshot
        \<or> currentConversationId current_A = None \<or> currentConversationId current_A = Some [])
   \<and> handleSubmit streaming_snapshot current_A always_failing first_send_in_flight
       = (Inr (), first_send_in_flight)"
proof -
  have i: "trim (inputValue streaming_snapshot) \<noteq> []"
    by (simp add: streaming_snapshot_def evaluate)
  have c: "currentConversationId current_A = Some (js ''A'')"
    by (simp add: current_A_def)
  have h: "trim (inputValue streaming_snapshot) = [] \<or> isStreaming streaming_snapshot
        \<or> currentConversationId current_A = None \<or> currentConversationId current_A = Some []"
    by (simp add: streaming_snapshot_def first_send_in_flight_def chat_begin_send)
  show ?thesis
    using i c h rejected_submit_is_silent_noop [OF h, of always_failing first_send_in_flight]
    by blast
qed

text \<open>
  The claim as the specification words it fails twice. A second submit from the
  snapshot of before the first submit (input \<open>hi\<close>, indicator off) arrives while the
  first send is streaming: it passes the guard, makes a second request and appends a second
  user message and a second placeholder. And a submit with an empty input box surfaces
  no error: the promise resolves and no call at all has been made, no toast among them.
\<close>

theorem stale_submit_sends_again:
  "isStreaming (chat first_send_in_flight)
   \<and> length (messages (chat first_send_in_flight)) = 2
   \<and> fst (handleSubmit stale_snapshot current_A empty_answers first_send_in_flight) = Inr ()
   \<and> messages (chat (snd (handleSubmit stale_snapshot current_A empty_answers
                             first_send_in_flight))) =
       [userMessage example_env example_request, assistantMessage example_env,
        userMessage second_env example_request, assistantMessage second_env]
   \<and> count_list (calls (snd (handleSubmit stale_snapshot current_A empty_answers
                                first_send_in_flight)))
        (SendMessage (js ''A'') example_request) = 2
   \<and> handleSubmit (chat initial_world) current_A empty_answers initial_world
       = (Inr (), initial_world)
   \<and> calls initial_world = []"
proof -
  let ?w1 = "perform (SetInputValue []) first_send_in_flight"
  have t: "trim (js ''hi'') = js ''hi''"
    by (simp add: evaluate)
  have s: "streamRequest (ok_response [] Eof) = Inr ([], Closed)"
    by (simp add: streamRequest_def ok_response_def ok_def)
  have m: "mutateAsync empty_answers (js ''A'') example_request 0 ?w1
             = send_complete (js ''A'')
                 (perform (SendMessage (js ''A'') example_request)
                    (begin_send second_env example_request ?w1))"
    using mutationFn_stream_closed [OF s, of second_env "js ''A''" example_request 0 ?w1]
    by (simp add: mutateAsync.simps [of empty_answers "js ''A''" example_request 0 ?w1]
                  empty_answers_def send_complete_def)
  have ne: "js ''hi'' \<noteq> []" "js ''A'' \<noteq> []"
    by (simp_all add: js_def)
  have run: "handleSubmit stale_snapshot current_A empty_answers first_send_in_flight
               = (Inr (), snd (send_complete (js ''A'')
                    (perform (SendMessage (js ''A'') example_request)
                       (begin_send second_env example_request ?w1))))"
    by (simp add: handleSubmit_def stale_snapshot_def typed_hi_def setInputValue_def
                  initial_world_def chatStore_def current_A_def t Let_def
                  example_request_def [symmetric] m ne)
       (simp add: send_complete_def)
  have a: "isStreaming (chat first_send_in_flight)
           \<and> length (messages (chat first_send_in_flight)) = 2"
    by (simp add: first_send_in_flight_def typed_hi_def chat_begin_send setInputValue_def
                  initial_world_def chatStore_def)
  have b: "messages (chat (snd (handleSubmit stale_snapshot current_A empty_answers
                             first_send_in_flight))) =
       [userMessage example_env example_request, assistantMessage example_env,
        userMessage second_env example_request, assistantMessage second_env]"
    by (simp only: run)
       (simp add: chat_send_complete chat_begin_send first_send_in_flight_def typed_hi_def
                  setInputValue_def initial_world_def chatStore_def)
  have c: "count_list (calls (snd (handleSubmit stale_snapshot current_A empty_answers
                                first_send_in_flight)))
        (SendMessage (js ''A'') example_request) = 2"
    by (simp only: run)
       (simp add: send_complete_def calls_begin_send first_send_in_flight_def typed_hi_def
                  initial_world_def)
  have d: "handleSubmit (chat initial_world) current_A empty_answers initial_world
             = (Inr (), initial_world)"
    by (simp add: handleSubmit_def initial_world_def chatStore_def trim_def)
  have e: "calls initial_world = []"
    by (simp add: initial_world_def)
  show ?thesis
    using a b c d e by (simp add: run)
qed

section \<open>Sends for different conversations\<close>

text \<open>
  C9, as the code has it. There is one global chat store and its actions take no
  conversation identifier, so all sends share the messages, the indicator and the
  buffer. Applying a token appends it to the one buffer and can only rewrite the last
  message (whichever send appended it); it leaves the indicator, the error, the number
  of messages and every message before the last as they were. A status change sets the
  one indicator (and, when false, empties the one buffer) and leaves the messages alone.
\<close>

theorem token_and_status_frame:
  "currentResponse (appendToResponse t s) = currentResponse s @ t
   \<and> isStreaming (appendToResponse t s) = isStreaming s
   \<and> error (appendToResponse t s) = error s
   \<and> length (messages (appendToResponse t s)) = length (messages s)
   \<and> butlast (messages (appendToResponse t s)) = butlast (messages s)
   \<and> isStreaming (setStreaming b s) = b
   \<and> messages (setStreaming b s) = messages s
   \<and> error (setStreaming b s) = error s
   \<and> currentResponse (setStreaming b s) = (if b then currentResponse s else [])"
  by (simp add: appendToResponse_def setStreaming_def Let_def)

text \<open>
  With the sends for \<open>A\<close> and \<open>B\<close> both in flight, a token of \<open>A\<close>'s stream lands in
  the placeholder of \<open>B\<close> and in the buffer \<open>B\<close> accumulates in, and the completion of
  \<open>A\<close> switches the indicator off while \<open>B\<close> is still streaming.
\<close>

theorem sessions_share_the_store:
  "messages (chat (perform (AppendToResponse (js ''x'')) two_sessions)) ! 3 =
     (assistantMessage second_env)\<lparr>content := js ''x''\<rparr>
   \<and> messages (chat two_sessions) ! 3 = assistantMessage second_env
   \<and> currentResponse (chat two_sessions) = []
   \<and> currentResponse (chat (perform (AppendToResponse (js ''x'')) two_sessions)) = js ''x''
   \<and> isStreaming (chat two_sessions)
   \<and> \<not> isStreaming (chat (snd (send_complete (js ''A'') two_sessions)))"
  by (simp add: two_sessions_def chat_begin_send chat_send_complete initial_world_def
                chatStore_def appendToResponse_def assistantMessage_def Let_def js_def)

section \<open>A failure status\<close>

lemma ToString_throws:
  "ToString v = Inl t \<Longrightarrow> \<exists>m. t = OtherError m"
  "join_elements vs = Inl t \<Longrightarrow> \<exists>m. t = OtherError m"
  by (induction v and vs rule: ToString_join_elements.induct)
     (auto split: sum.splits if_splits)

lemma streamRequest_failure_status:
  assumes "\<not> ok r" and "json_body r \<noteq> Some JNull"
  shows "streamRequest (Responded r) =
           (case failure_message r
                   (case json_body r of None \<Rightarrow> None
                    | Some v \<Rightarrow> (case get_detail v of Inr d \<Rightarrow> d | Inl e \<Rightarrow> None)) of
              Inl e \<Rightarrow> Inl (NetworkError (js ''Failed to establish streaming connection''))
            | Inr m \<Rightarrow> Inl (ApiError m (Some (status r))))"
proof -
  have other: "failure_message r d = Inl t \<Longrightarrow> \<exists>m. t = OtherError m" for d t
    using ToString_throws(1)
    by (auto simp: failure_message_def split: option.splits if_splits)
  have catch: "failure_message r d = Inl t \<Longrightarrow>
      streamRequest_catch t = Inl (NetworkError (js ''Failed to establish streaming connection''))"
    for d t
    using other [of d t] by auto
  show ?thesis
  proof (cases "json_body r")
    case None
    then show ?thesis
      using assms(1) catch [of "None"]
      by (auto simp: streamRequest_def split: sum.splits)
  next
    case (Some v)
    with assms(2) have "v \<noteq> JNull"
      by simp
    then obtain d where d: "get_detail v = Inr d"
      by (cases v) simp_all
    show ?thesis
      using assms(1) Some d catch [of d]
      by (auto simp: streamRequest_def split: sum.splits)
  qed
qed

lemma streamRequest_no_body:
  assumes "ok r" and "body r = None"
  shows "streamRequest (Responded r) =
           Inl (ApiError (js ''No response body for streaming request'') None)"
  using assms by (simp add: streamRequest_def)

lemma streamRequest_model_not_loaded:
  "streamRequest (error_response (Some (JObj [(js ''detail'', JStr (js ''model not loaded''))])))
     = Inl (ApiError (js ''model not loaded'') (Some 500))"
  by (simp add: streamRequest_def error_response_def ok_def failure_message_def js_def)

text \<open>
  C4 at a status 500 whose body is the JSON text \<^verbatim>\<open>null\<close>. The body parses, so the
  fallback \<^verbatim>\<open>{}\<close> is not taken; reading \<^verbatim>\<open>errorData.detail\<close> throws inside the
  \<^verbatim>\<open>try\<close>, and the \<^verbatim>\<open>catch\<close> turns that into a \<^verbatim>\<open>NetworkError\<close> with a fixed message:
  neither a message field of the body nor the status line.
\<close>

theorem null_error_body_loses_status:
  "streamRequest (error_response (Some JNull))
     = Inl (NetworkError (js ''Failed to establish streaming connection''))
   \<and> streamRequest (error_response None)
     = Inl (ApiError (js ''HTTP 500: Internal Server Error'') (Some 500))"
  by (simp add: streamRequest_def error_response_def ok_def failure_message_def dec.simps js_def)

section \<open>The decoder at a line feed\<close>

text \<open>
  After a line feed the UTF-8 decoder is back in its initial state whatever it was in
  before, so decoding distributes over a cut right after a line feed (up to the
  byte-order mark a fresh call would drop).
\<close>


lemma lower_utf8_lead: "0x80 \<le> lower (snd (utf8_lead b))"
  by (simp add: utf8_lead_def utf8_init_def)

lemma lower_utf8_handler: "0x80 \<le> lower (snd (utf8_handler st b))"
proof (cases "utf8_lead b")
  case (Pair out st')
  with lower_utf8_lead [of b] have "0x80 \<le> lower st'"
    by simp
  with Pair show ?thesis
    by (simp add: utf8_handler_def utf8_init_def Let_def)
qed

lemma utf8_lead_nl: "utf8_lead nl_byte = ([10], utf8_init)"
  by (simp add: utf8_lead_def nl_byte_def)

lemma utf8_handler_nl:
  assumes "0x80 \<le> lower st"
  shows "utf8_handler st nl_byte =
           ((if needed st = 0 then [] else [replacement]) @ [10], utf8_init)"
proof -
  have "nl_byte < lower st"
    unfolding nl_byte_def by (rule less_le_trans [OF _ assms]) simp
  then show ?thesis
    by (simp add: utf8_handler_def utf8_lead_nl)
qed

lemma utf8_run_nl:
  assumes "0x80 \<le> lower st"
  shows "utf8_run st (a @ nl_byte # b) = utf8_run st (a @ [nl_byte]) @ utf8_run utf8_init b"
  using assms
proof (induction a arbitrary: st)
  case Nil
  then show ?case
    by (simp add: utf8_handler_nl) (simp add: utf8_init_def)
next
  case (Cons x a)
  obtain out st' where h: "utf8_handler st x = (out, st')"
    by (cases "utf8_handler st x")
  then have "0x80 \<le> lower st'"
    using lower_utf8_handler [of st x] by simp
  then show ?case
    using Cons.IH h by simp
qed

lemma utf8_run_ends_nl:
  assumes "0x80 \<le> lower st"
  shows "\<exists>ys. utf8_run st (a @ [nl_byte]) = ys @ [10]"
  using assms
proof (induction a arbitrary: st)
  case Nil
  then show ?case
    by (simp add: utf8_handler_nl) (simp add: utf8_init_def)
next
  case (Cons x a)
  obtain out st' where h: "utf8_handler st x = (out, st')"
    by (cases "utf8_handler st x")
  then have "0x80 \<le> lower st'"
    using lower_utf8_handler [of st x] by simp
  then obtain ys where "utf8_run st' (a @ [nl_byte]) = ys @ [10]"
    using Cons.IH by blast
  then show ?case
    using h by simp
qed

lemma lower_utf8_init: "0x80 \<le> lower utf8_init"
  by (simp add: utf8_init_def)

lemma utf16_append: "utf16 (xs @ ys) = utf16 xs @ utf16 ys"
  by (simp add: utf16_def)

lemma strip_bom_append: "xs \<noteq> [] \<Longrightarrow> strip_bom (xs @ ys) = strip_bom xs @ ys"
  by (cases xs) (simp_all add: strip_bom_def)

lemma strip_bom_no_bom: "\<not> starts_with_bom v \<Longrightarrow> strip_bom (utf8_run utf8_init v) = utf8_run utf8_init v"
  by (simp add: starts_with_bom_def strip_bom_def split: list.splits)

lemma decode_after_line:
  assumes "\<not> starts_with_bom b"
  shows "decode (a @ nl_byte # b) = decode (a @ [nl_byte]) @ decode b"
proof -
  obtain ys where ys: "utf8_run utf8_init (a @ [nl_byte]) = ys @ [10]"
    using utf8_run_ends_nl [OF lower_utf8_init] by blast
  have "utf8_run utf8_init (a @ nl_byte # b) = (ys @ [10]) @ utf8_run utf8_init b"
    using utf8_run_nl [OF lower_utf8_init, of a b] ys by simp
  then show ?thesis
    using ys assms
    by (simp add: decode_def strip_bom_append strip_bom_no_bom utf16_append del: append_assoc)
qed

lemma decode_line_ends_nl: "\<exists>zs. decode (a @ [nl_byte]) = zs @ [nl]"
proof -
  obtain ys where ys: "utf8_run utf8_init (a @ [nl_byte]) = ys @ [10]"
    using utf8_run_ends_nl [OF lower_utf8_init] by blast
  have "\<exists>ys'. strip_bom (ys @ [10]) = ys' @ [10]"
    by (cases ys) (simp_all add: strip_bom_def)
  then obtain ys' where "strip_bom (ys @ [10]) = ys' @ [10]"
    by blast
  then have "decode (a @ [nl_byte]) = utf16 ys' @ [nl]"
    using ys by (simp add: decode_def utf16_append) (simp add: utf16_def code_units_def nl_def)
  then show ?thesis
    by blast
qed

lemma split_nl_not_Nil: "split_nl x \<noteq> []"
  by (induction x) (simp_all split: list.splits)

lemma split_nl_append: "split_nl (x @ nl # y) = split_nl x @ split_nl y"
proof (induction x)
  case Nil
  then show ?case by simp
next
  case (Cons c x)
  obtain l ls where "split_nl x = l # ls"
    using split_nl_not_Nil [of x] by (cases "split_nl x") simp_all
  then show ?case
    using Cons.IH by simp
qed

lemma process_lines_append:
  "process_lines (L @ M) =
     (if snd (process_lines L) then process_lines L
      else (fst (process_lines L) @ fst (process_lines M), snd (process_lines M)))"
  by (induction L) (simp_all add: Let_def split: prod.splits)


lemma process_lines_empty_line: "process_lines [[]] = ([], False)"
  by (simp add: startsWith_def js_def)

lemma decode_Nil: "decode [] = []"
  by (simp add: decode_def utf8_init_def strip_bom_def utf16_def)

lemma lines_of_empty_chunk: "process_lines (split_nl (decode [])) = ([], False)"
  by (simp only: decode_Nil split_nl.simps process_lines_empty_line)

lemma lines_of_joined_chunks:
  assumes "\<not> starts_with_bom d"
  shows "process_lines (split_nl (decode ((a @ [nl_byte]) @ d))) =
           (if snd (process_lines (split_nl (decode (a @ [nl_byte]))))
            then process_lines (split_nl (decode (a @ [nl_byte])))
            else (fst (process_lines (split_nl (decode (a @ [nl_byte]))))
                    @ fst (process_lines (split_nl (decode d))),
                  snd (process_lines (split_nl (decode d)))))"
proof -
  obtain zs where zs: "decode (a @ [nl_byte]) = zs @ [nl]"
    using decode_line_ends_nl by blast
  have one: "split_nl (decode (a @ [nl_byte])) = split_nl zs @ [[]]"
    using split_nl_append [of zs "[]"] by (simp add: zs)
  have two: "split_nl (decode ((a @ [nl_byte]) @ d)) = split_nl zs @ split_nl (decode d)"
    using split_nl_append [of zs "decode d"] decode_after_line [OF assms, of a]
    by (simp add: zs)
  have three: "process_lines (split_nl zs @ [[]]) = process_lines (split_nl zs)"
    by (cases "process_lines (split_nl zs)")
       (simp add: process_lines_append [of "split_nl zs" "[[]]"] process_lines_empty_line
             del: process_lines.simps)
  show ?thesis
    by (simp only: one two three process_lines_append [of "split_nl zs" "split_nl (decode d)"])
qed

lemma pump_joined_chunks:
  assumes "\<not> starts_with_bom d"
  shows "pump (((a @ [nl_byte]) @ d) # rest) fin = pump ((a @ [nl_byte]) # d # rest) fin"
  by (simp add: pump_Cons lines_of_joined_chunks [OF assms] del: pump.simps(3) append_assoc)

lemma pump_empty_chunk: "pump ([] # rest) fin = pump rest fin"
  by (simp add: pump_Cons lines_of_empty_chunk del: pump.simps(3))

lemma pump_cong_tail: "pump vs fin = pump vs' fin \<Longrightarrow> pump (v # vs) fin = pump (v # vs') fin"
  by (simp add: pump_Cons del: pump.simps(3))

lemma starts_with_bom_Nil: "\<not> starts_with_bom []"
  by (simp add: starts_with_bom_def utf8_init_def)

lemma starts_with_bom_line:
  "starts_with_bom ((a @ [nl_byte]) @ d) = starts_with_bom (a @ [nl_byte])"
proof -
  obtain ys where ys: "utf8_run utf8_init (a @ [nl_byte]) = ys @ [10]"
    using utf8_run_ends_nl [OF lower_utf8_init] by blast
  have "utf8_run utf8_init ((a @ [nl_byte]) @ d) = (ys @ [10]) @ utf8_run utf8_init d"
    using utf8_run_nl [OF lower_utf8_init, of a d] ys by simp
  then show ?thesis
    using ys by (cases ys) (simp_all add: starts_with_bom_def)
qed

lemma ends_line_cases:
  assumes "ends_line c"
  obtains "c = []" | a where "c = a @ [nl_byte]"
  using assms unfolding ends_line_def
  by (metis append_butlast_last_id)

lemma no_bom_concat:
  assumes "list_all ends_line cs" and "list_all (\<lambda>c. \<not> starts_with_bom c) cs"
  shows "\<not> starts_with_bom (concat cs)"
  using assms
proof (induction cs)
  case Nil
  then show ?case by (simp add: starts_with_bom_Nil)
next
  case (Cons c cs)
  from Cons.prems(1) have "ends_line c" by simp
  then show ?case
  proof (cases rule: ends_line_cases)
    case 1
    then show ?thesis using Cons by simp
  next
    case (2 a)
    then show ?thesis
      using Cons.prems(2) starts_with_bom_line [of a "concat cs"] by simp
  qed
qed

lemma pump_line_aligned:
  assumes "line_aligned cs"
  shows "pump cs fin = pump [concat cs] fin"
  using assms
proof (induction cs)
  case Nil
  then show ?case by (simp add: pump_empty_chunk del: pump.simps(3))
next
  case (Cons c cs)
  from Cons.prems have c: "ends_line c" and al: "list_all ends_line cs"
    and nb: "list_all (\<lambda>c. \<not> starts_with_bom c) cs"
    by (simp_all add: line_aligned_def)
  have "list_all (\<lambda>c. \<not> starts_with_bom c) (tl cs)"
    using nb by (cases cs) simp_all
  then have "line_aligned cs"
    using al by (simp add: line_aligned_def)
  then have ih: "pump cs fin = pump [concat cs] fin"
    by (rule Cons.IH)
  have step: "pump (c # cs) fin = pump [c, concat cs] fin"
    using ih by (rule pump_cong_tail)
  from c show ?case
  proof (cases rule: ends_line_cases)
    case 1
    then show ?thesis
      using ih by (simp add: pump_empty_chunk del: pump.simps(3))
  next
    case (2 a)
    have "pump [c, concat cs] fin = pump [c @ concat cs] fin"
      unfolding 2 by (rule pump_joined_chunks [symmetric]) (rule no_bom_concat [OF al nb])
    then show ?thesis
      using step by simp
  qed
qed

section \<open>Re-chunking\<close>

text \<open>
  C1, as the code has it. The pump decodes and splits every chunk on its own and keeps
  nothing for the next one. So the tokens (and the way the stream ends) are the same for
  any two partitions of the same bytes only as long as the chunks are line-aligned:
  every chunk ends right after a line feed, and no chunk after the first begins with a
  byte-order mark.
\<close>

theorem rechunking_at_line_ends:
  assumes "line_aligned cs" and "line_aligned cs'" and "concat cs = concat cs'"
  shows "pump cs fin = pump cs' fin \<and> tokens cs = tokens cs'"
proof -
  have "pump cs fin = pump cs' fin"
    by (simp only: pump_line_aligned [OF assms(1)] pump_line_aligned [OF assms(2)] assms(3))
  moreover have "pump cs (Eof :: unit source_end) = pump cs' Eof"
    by (simp only: pump_line_aligned [OF assms(1)] pump_line_aligned [OF assms(2)] assms(3))
  ultimately show ?thesis
    by (simp only: tokens_def)
qed

theorem rechunking_at_line_ends_witness:
  "line_aligned [bytes_of ''data: Hello\<newline>'', bytes_of ''data: World\<newline>'']
   \<and> line_aligned [bytes_of ''data: Hello\<newline>data: World\<newline>'']
   \<and> concat [bytes_of ''data: Hello\<newline>'', bytes_of ''data: World\<newline>'']
       = concat [bytes_of ''data: Hello\<newline>data: World\<newline>'']
   \<and> tokens [bytes_of ''data: Hello\<newline>'', bytes_of ''data: World\<newline>'']
       = tokens [bytes_of ''data: Hello\<newline>data: World\<newline>'']
   \<and> tokens [bytes_of ''data: Hello\<newline>data: World\<newline>''] = [js ''Hello'', js ''World'']"
proof -
  have h1: "line_aligned [bytes_of ''data: Hello\<newline>'', bytes_of ''data: World\<newline>'']"
    by (simp add: line_aligned_def ends_line_def starts_with_bom_def nl_byte_def evaluate)
  have h2: "line_aligned [bytes_of ''data: Hello\<newline>data: World\<newline>'']"
    by (simp add: line_aligned_def ends_line_def nl_byte_def bytes_of_def)
  have h3: "concat [bytes_of ''data: Hello\<newline>'', bytes_of ''data: World\<newline>'']
              = concat [bytes_of ''data: Hello\<newline>data: World\<newline>'']"
    by (simp add: bytes_of_def)
  have t: "tokens [bytes_of ''data: Hello\<newline>data: World\<newline>''] = [js ''Hello'', js ''World'']"
    by (simp add: tokens_def evaluate)
  have e: "tokens [bytes_of ''data: Hello\<newline>'', bytes_of ''data: World\<newline>'']
             = tokens [bytes_of ''data: Hello\<newline>data: World\<newline>'']"
    using rechunking_at_line_ends [OF h1 h2 h3] by (rule conjunct2)
  show ?thesis
    by (intro conjI h1 h2 h3 e t)
qed

text \<open>
  A cut inside a line changes the tokens: the first part of the line is emitted as a
  token of its own and the rest, which no longer starts with the prefix, is dropped.
\<close>

theorem split_line_changes_tokens:
  "concat [bytes_of ''data: Hel'', bytes_of ''lo\<newline>''] = concat [bytes_of ''data: Hello\<newline>'']
   \<and> tokens [bytes_of ''data: Hel'', bytes_of ''lo\<newline>''] = [js ''Hel'']
   \<and> tokens [bytes_of ''data: Hello\<newline>''] = [js ''Hello'']
   \<and> tokens [bytes_of ''data: Hel'', bytes_of ''lo\<newline>''] \<noteq> tokens [bytes_of ''data: Hello\<newline>'']"
  by (simp add: tokens_def evaluate)

section \<open>Example A\<close>

lemma pump_example_A: "pump example_A fin = ([js ''Hel''], Closed)"
  by (simp add: example_A_def evaluate)

text \<open>
  C3, as the code has it. With the three chunks of Example A the pump emits the single
  token \<open>Hel\<close>: the unfinished line of the first chunk is taken as a line; in the
  second chunk \<open>lo\<close> does not start with the prefix and the payload of \<open>data: \<close> is
  empty; in the third \<open> World\<close> does not start with the prefix and the sentinel closes
  the stream. The send resolves, and the placeholder's final content is \<open>Hel\<close>.
\<close>

theorem example_A_result:
  assumes "currentResponse (chat w) = []"
  shows "streamRequest (ok_response example_A fin) = Inr ([js ''Hel''], Closed)
         \<and> fst (mutationFn en c data (ok_response example_A fin) k w) = Inr ()
         \<and> \<not> isStreaming (chat (snd (mutationFn en c data (ok_response example_A fin) k w)))
         \<and> messages (chat (snd (mutationFn en c data (ok_response example_A fin) k w))) =
             messages (chat w)
             @ [userMessage en data, (assistantMessage en)\<lparr>content := js ''Hel''\<rparr>]"
proof -
  let ?w2 = "read_loop [js ''Hel''] (perform (SendMessage c data) (begin_send en data w))"
  have s: "streamRequest (ok_response example_A fin) = Inr ([js ''Hel''], Closed)"
    by (simp add: streamRequest_def ok_response_def ok_def pump_example_A)
  have run: "mutationFn en c data (ok_response example_A fin) k w = send_complete c ?w2"
    by (rule mutationFn_stream_closed [OF s])
  have m: "messages (chat ?w2) =
      messages (chat w)
      @ [userMessage en data, (assistantMessage en)\<lparr>content := concat [js ''Hel'']\<rparr>]"
    by (rule messages_after_tokens [OF assms])
  have f: "fst (send_complete c ?w2) = Inr ()"
    by (simp add: send_complete_def)
  show ?thesis
    using s f m by (simp only: run chat_send_complete) simp
qed

theorem example_A_result_witness:
  "currentResponse (chat initial_world) = []
   \<and> streamRequest (ok_response example_A Eof) = Inr ([js ''Hel''], Closed)
   \<and> fst (mutationFn example_env (js ''A'') example_request (ok_response example_A Eof)
            0 initial_world) = Inr ()
   \<and> messages (chat (snd (mutationFn example_env (js ''A'') example_request
            (ok_response example_A Eof) 0 initial_world))) =
       [userMessage example_env example_request,
        (assistantMessage example_env)\<lparr>content := js ''Hel''\<rparr>]"
proof -
  have h: "currentResponse (chat initial_world) = []"
    by (simp add: initial_world_def chatStore_def)
  show ?thesis
    using example_A_result
        [OF h, where fin = Eof and en = example_env and c = "js ''A''"
           and data = example_request and k = 0] h
    by (simp add: initial_world_def chatStore_def)
qed

text \<open>The tokens of Example A are not the two the specification lists.\<close>

theorem example_A_tokens_differ:
  "tokens example_A = [js ''Hel''] \<and> tokens example_A \<noteq> [js ''Hello'', js '' World'']"
  by (simp add: tokens_def pump_example_A js_def)

section \<open>The sentinel\<close>








end
